theory Spec2Isabelle
  imports Complex_Main
begin

section \<open>Exceptions and floating-point values\<close>

text \<open>
  The exceptions the engine raises itself are \<^verbatim>\<open>FileNotFoundError\<close> (no model artifact)
  and \<^verbatim>\<open>ValueError\<close> (with its message). \<open>LibraryError\<close> stands for any other
  exception raised inside a library call (reading the CSV, fitting, pickling).
\<close>

datatype error =
    FileNotFoundError string
  | ValueError string
  | LibraryError string

text \<open>
  A pandas/numpy float is either \<open>NaN\<close> or a number. Numbers are modelled as exact reals:
  the 53-bit rounding of IEEE doubles is not modelled.
\<close>

datatype fval = NaN | Fl real

section \<open>Calendar dates (the library's \<^verbatim>\<open>Timestamp\<close> at day resolution)\<close>

record date =
  year :: int
  month :: int
  day :: int

definition is_leap :: "int \<Rightarrow> bool" where
  "is_leap y = (y mod 4 = 0 \<and> (y mod 100 \<noteq> 0 \<or> y mod 400 = 0))"

definition days_in_month :: "int \<Rightarrow> int \<Rightarrow> int" where
  "days_in_month y m =
     (if m = 2 then (if is_leap y then 29 else 28)
      else if m = 4 \<or> m = 6 \<or> m = 9 \<or> m = 11 then 30 else 31)"

definition valid_date :: "date \<Rightarrow> bool" where
  "valid_date d = (1 \<le> month d \<and> month d \<le> 12 \<and> 1 \<le> day d
     \<and> day d \<le> days_in_month (year d) (month d))"

text \<open>\<^verbatim>\<open>pd.Timestamp(year=, month=, day=)\<close>: raises \<^verbatim>\<open>ValueError\<close> for a day that
  does not exist.\<close>

definition Timestamp :: "int \<Rightarrow> int \<Rightarrow> int \<Rightarrow> error + date" where
  "Timestamp y m d =
     (if valid_date \<lparr>year = y, month = m, day = d\<rparr>
      then Inr \<lparr>year = y, month = m, day = d\<rparr>
      else Inl (ValueError ''day is out of range for month''))"

definition days_before_year :: "int \<Rightarrow> int" where
  "days_before_year y = (y - 1) * 365 + (y - 1) div 4 - (y - 1) div 100 + (y - 1) div 400"

definition days_before_month :: "int \<Rightarrow> int \<Rightarrow> int" where
  "days_before_month y m =
     [0, 31, 59, 90, 120, 151, 181, 212, 243, 273, 304, 334] ! nat (m - 1)
       + (if m > 2 \<and> is_leap y then 1 else 0)"

text \<open>The proleptic Gregorian ordinal of a date, as \<^verbatim>\<open>date.toordinal()\<close>.\<close>

definition to_ordinal :: "date \<Rightarrow> int" where
  "to_ordinal d = days_before_year (year d) + days_before_month (year d) (month d) + day d"

text \<open>\<^verbatim>\<open>calendar.monthrange(year, month)\<close>: weekday of the first day and number of days.\<close>

definition monthrange :: "int \<Rightarrow> int \<Rightarrow> error + (int \<times> int)" where
  "monthrange y m =
     (if 1 \<le> m \<and> m \<le> 12
      then Inr ((to_ordinal \<lparr>year = y, month = m, day = 1\<rparr> + 6) mod 7, days_in_month y m)
      else Inl (ValueError ''bad month number''))"

text \<open>Adding a \<^verbatim>\<open>timedelta(days=n)\<close> steps through the calendar one day at a time.\<close>

definition next_day :: "date \<Rightarrow> date" where
  "next_day d =
     (if day d < days_in_month (year d) (month d) then d\<lparr>day := day d + 1\<rparr>
      else if month d < 12 then d\<lparr>month := month d + 1, day := 1\<rparr>
      else \<lparr>year = year d + 1, month = 1, day = 1\<rparr>)"

definition prev_day :: "date \<Rightarrow> date" where
  "prev_day d =
     (if 1 < day d then d\<lparr>day := day d - 1\<rparr>
      else if 1 < month d
        then d\<lparr>month := month d - 1, day := days_in_month (year d) (month d - 1)\<rparr>
      else \<lparr>year = year d - 1, month = 12, day = 31\<rparr>)"

definition add_days :: "date \<Rightarrow> int \<Rightarrow> date" where
  "add_days d n = (if 0 \<le> n then (next_day ^^ nat n) d else (prev_day ^^ nat (- n)) d)"

text \<open>\<^verbatim>\<open>(a - b).days\<close> for two dates.\<close>

definition days_between :: "date \<Rightarrow> date \<Rightarrow> int" where
  "days_between a b = to_ordinal a - to_ordinal b"

text \<open>Python's \<^verbatim>\<open>round\<close> on a float: to the nearest integer, ties to the even one.\<close>

definition py_round :: "real \<Rightarrow> int" where
  "py_round x =
     (let f = \<lfloor>x\<rfloor>; r = x - of_int f
      in if r < 1 / 2 then f else if 1 / 2 < r then f + 1
         else if even f then f else f + 1)"

text \<open>\<^verbatim>\<open>int(round(x))\<close> raises \<^verbatim>\<open>ValueError\<close> on NaN.\<close>

definition int_round :: "fval \<Rightarrow> error + int" where
  "int_round v =
     (case v of NaN \<Rightarrow> Inl (ValueError ''cannot convert float NaN to integer'')
      | Fl x \<Rightarrow> Inr (py_round x))"

text \<open>Timestamps compare by the instant they denote.\<close>

definition date_le :: "date \<Rightarrow> date \<Rightarrow> bool" where
  "date_le a b = (to_ordinal a \<le> to_ordinal b)"

section \<open>Payment histories (\<^verbatim>\<open>data_processor.py\<close>)\<close>

text \<open>
  A row of the payment-history table. \<open>scheduled_date\<close> is \<open>None\<close> for a missing value
  (\<^verbatim>\<open>NaT\<close>). A table is its list of rows together with the fact whether it has a
  \<^verbatim>\<open>scheduled_date\<close> column at all. The \<^verbatim>\<open>amount\<close> column and the features computed
  from it take no part in what is stated below and are left out, as are the features
  \<^verbatim>\<open>max_delay\<close>, \<^verbatim>\<open>min_delay\<close>, \<^verbatim>\<open>recent_*\<close>, \<^verbatim>\<open>avg_interval\<close>, \<^verbatim>\<open>interval_std\<close>
  and \<^verbatim>\<open>preferred_*\<close>.
\<close>

record payment =
  customer_id :: string
  payment_date :: date
  scheduled_date :: "date option"

text \<open>A row once the column \<^verbatim>\<open>delay_days\<close> exists; \<open>None\<close> is \<^verbatim>\<open>NaN\<close>.\<close>

record dpayment = payment +
  delay_days :: "int option"

record 'r frame =
  has_scheduled :: bool
  rows :: "'r list"

definition with_delay :: "payment \<Rightarrow> int option \<Rightarrow> dpayment" where
  "with_delay r v = \<lparr>customer_id = customer_id r, payment_date = payment_date r,
     scheduled_date = scheduled_date r, delay_days = v\<rparr>"

text \<open>\<^verbatim>\<open>Series.diff().dt.days\<close>: the first entry is NaN.\<close>

definition diff_days :: "date list \<Rightarrow> int option list" where
  "diff_days ds =
     (if ds = [] then []
      else None # map (\<lambda>(a, b). Some (days_between b a)) (zip ds (tl ds)))"

definition fillna :: "int \<Rightarrow> int option list \<Rightarrow> int option list" where
  "fillna c vs = map (\<lambda>v. case v of None \<Rightarrow> Some c | Some x \<Rightarrow> Some x) vs"

definition calculate_payment_delays :: "payment frame \<Rightarrow> dpayment frame" where
  "calculate_payment_delays df =
     (if has_scheduled df
      then \<lparr>has_scheduled = True,
            rows = map (\<lambda>r. with_delay r
                     (case scheduled_date r of None \<Rightarrow> None
                      | Some s \<Rightarrow> Some (days_between (payment_date r) s))) (rows df)\<rparr>
      else \<lparr>has_scheduled = False,
            rows = map2 with_delay (rows df)
                     (fillna 0 (diff_days (map payment_date (rows df))))\<rparr>)"

subsection \<open>Column statistics (NaN is skipped, as pandas does)\<close>

definition dropna :: "int option list \<Rightarrow> int list" where
  "dropna vs = List.map_filter (\<lambda>v. v) vs"

definition pd_mean :: "int option list \<Rightarrow> fval" where
  "pd_mean vs =
     (let ys = dropna vs
      in if ys = [] then NaN else Fl (real_of_int (sum_list ys) / real (length ys)))"

text \<open>\<^verbatim>\<open>Series.std()\<close>: the sample standard deviation (\<^verbatim>\<open>ddof=1\<close>).\<close>

definition pd_std :: "int option list \<Rightarrow> fval" where
  "pd_std vs =
     (let ys = dropna vs; n = length ys
      in if n < 2 then NaN
         else let m = real_of_int (sum_list ys) / real n
              in Fl (sqrt ((\<Sum>y\<leftarrow>ys. (real_of_int y - m)\<^sup>2) / real (n - 1))))"

text \<open>\<^verbatim>\<open>Series.max()\<close> of a date column: \<open>None\<close> (\<^verbatim>\<open>NaT\<close>) for an empty column.\<close>

fun pd_max :: "date list \<Rightarrow> date option" where
  "pd_max [] = None"
| "pd_max (d # ds) =
     (case pd_max ds of None \<Rightarrow> Some d
      | Some m \<Rightarrow> Some (if date_le m d then d else m))"

subsection \<open>Feature engineering\<close>

definition feature_windows :: "int list" where
  "feature_windows = [7, 14, 30, 60, 90]"

record features =
  total_payments :: nat
  avg_delay :: fval
  std_delay :: fval
  windows :: "(int \<times> fval \<times> nat) list"
  last_payment_date :: date
  last_delay :: "int option"
  days_since_last_payment :: int

text \<open>
  The body of the loop over \<^verbatim>\<open>self.feature_windows\<close>: the pair
  (\<^verbatim>\<open>delay_mean_{window}d\<close>, \<^verbatim>\<open>payment_count_{window}d\<close>). A comparison with
  \<^verbatim>\<open>NaT\<close> is false.
\<close>

definition window_features :: "dpayment list \<Rightarrow> int \<Rightarrow> fval \<times> nat" where
  "window_features customer_df window =
     (let window_df =
            filter (\<lambda>r. case pd_max (map payment_date customer_df) of
                           None \<Rightarrow> False
                         | Some mx \<Rightarrow> date_le (add_days mx (- window)) (payment_date r))
              customer_df
      in if length window_df > 0
         then (pd_mean (map delay_days window_df), length window_df)
         else (Fl 0, 0))"

text \<open>
  \<open>now\<close> is the reading of the clock (\<^verbatim>\<open>datetime.now()\<close>) and \<open>df\<close> the rows of the
  table passed in.
\<close>

definition engineer_features :: "dpayment list \<Rightarrow> string \<Rightarrow> date \<Rightarrow> features option" where
  "engineer_features df cid now =
     (let customer_df = filter (\<lambda>r. customer_id r = cid) df
      in if length customer_df < 2 then None
         else Some \<lparr>
           total_payments = length customer_df,
           avg_delay = pd_mean (map delay_days customer_df),
           std_delay = pd_std (map delay_days customer_df),
           windows = map (\<lambda>w. (w, window_features customer_df w)) feature_windows,
           last_payment_date = payment_date (last customer_df),
           last_delay = delay_days (last customer_df),
           days_since_last_payment = days_between now (payment_date (last customer_df))\<rparr>)"

text \<open>The numeric columns of the one-row table of features, by name.\<close>

fun str_nat :: "nat \<Rightarrow> string" where
  "str_nat n = (if n < 10 then [char_of (48 + n)]
                else str_nat (n div 10) @ [char_of (48 + n mod 10)])"

definition of_int_opt :: "int option \<Rightarrow> fval" where
  "of_int_opt v = (case v of None \<Rightarrow> NaN | Some x \<Rightarrow> Fl (real_of_int x))"

definition numeric_columns :: "features \<Rightarrow> (string \<times> fval) list" where
  "numeric_columns f =
     [(''total_payments'', Fl (real (total_payments f))),
      (''avg_delay'', avg_delay f),
      (''std_delay'', std_delay f)]
     @ concat (map (\<lambda>(w, m, c).
         [(''delay_mean_'' @ str_nat (nat w) @ ''d'', m),
          (''payment_count_'' @ str_nat (nat w) @ ''d'', Fl (real c))]) (windows f))
     @ [(''last_delay'', of_int_opt (last_delay f)),
        (''days_since_last_payment'', Fl (real_of_int (days_since_last_payment f)))]"

subsection \<open>The training table\<close>

text \<open>\<^verbatim>\<open>Series.unique()\<close>: the distinct values in order of first appearance.\<close>

definition unique :: "'a list \<Rightarrow> 'a list" where
  "unique xs = rev (remdups (rev xs))"

text \<open>The examples one customer contributes: the inner loop of \<^verbatim>\<open>prepare_training_data\<close>.\<close>

definition customer_examples :: "date \<Rightarrow> dpayment list \<Rightarrow> string \<Rightarrow> (features \<times> int) list" where
  "customer_examples now df cid =
     (let customer_df = filter (\<lambda>r. customer_id r = cid) df
      in if length customer_df < 3 then []
         else concat (map (\<lambda>i.
           let historical = take i customer_df;
               target = customer_df ! i
           in case engineer_features (take i (filter (\<lambda>r. customer_id r = cid) df)) cid now of
                None \<Rightarrow> []
              | Some fs \<Rightarrow>
                  [(fs,
                    if i < length customer_df - 1
                    then days_between (payment_date (customer_df ! (i + 1))) (payment_date target)
                    else days_between (payment_date target) (payment_date (last historical)))])
           [2 ..< length customer_df]))"

definition training_examples :: "date \<Rightarrow> dpayment list \<Rightarrow> (features \<times> int) list" where
  "training_examples now df =
     concat (map (customer_examples now df) (unique (map customer_id df)))"

text \<open>
  The result is \<open>None\<close> for \<^verbatim>\<open>(None, None)\<close>; otherwise the rows of numeric columns
  (the date column \<^verbatim>\<open>last_payment_date\<close> is dropped) and the targets.
\<close>

definition prepare_training_data ::
  "date \<Rightarrow> dpayment list \<Rightarrow> ((string \<times> fval) list list \<times> int list) option" where
  "prepare_training_data now df =
     (let ex = training_examples now df
      in if length ex = 0 then None
         else Some (map (\<lambda>e. numeric_columns (fst e)) ex, map snd ex))"

section \<open>The prediction engine (\<^verbatim>\<open>predictor.py\<close>)\<close>

definition MODEL_PATH :: string where
  "MODEL_PATH = ''models/emi_predictor_model.pkl''"

definition MIN_HISTORY_RECORDS :: nat where
  "MIN_HISTORY_RECORDS = 3"

text \<open>
  A regressor object is either freshly constructed (\<open>Unfitted\<close>) or fitted, and then
  determined by the prediction it makes for a row of column values.
\<close>

datatype regressor = Unfitted | Fitted "fval list \<Rightarrow> real"

record engine =
  model :: "regressor option"
  feature_names :: "string list option"

subsection \<open>The environment: file system and libraries\<close>

datatype file_content =
    CsvFile "payment frame"
  | ModelFile regressor "string list"
  | OtherFile

text \<open>
  \<open>files\<close> maps an absolute path to the file there; \<open>writable\<close> tells whether writing the
  file at a path succeeds. \<open>train_test_split\<close> and \<open>xgb_fit\<close> are the library calls of
  scikit-learn and XGBoost, with the arguments fixed in the source; either may raise.
\<close>

record env =
  cwd :: string
  script_dir :: string
  files :: "string \<Rightarrow> file_content option"
  writable :: "string \<Rightarrow> bool"
  train_test_split :: "fval list list \<Rightarrow> int list \<Rightarrow>
     error + (fval list list \<times> fval list list \<times> int list \<times> int list)"
  xgb_fit :: "fval list list \<Rightarrow> int list \<Rightarrow> error + (fval list \<Rightarrow> real)"

definition isabs :: "string \<Rightarrow> bool" where
  "isabs p = (case p of [] \<Rightarrow> False | c # _ \<Rightarrow> c = CHR ''/'')"

definition join :: "string \<Rightarrow> string \<Rightarrow> string" where
  "join a b =
     (if isabs b then b
      else if a = [] \<or> last a = CHR ''/'' then a @ b
      else a @ ''/'' @ b)"

definition dirname :: "string \<Rightarrow> string" where
  "dirname p =
     (let head = rev (dropWhile (\<lambda>c. c \<noteq> CHR ''/'') (rev p))
      in if head \<noteq> [] \<and> (\<exists>c \<in> set head. c \<noteq> CHR ''/'')
         then rev (dropWhile (\<lambda>c. c = CHR ''/'') (rev head))
         else head)"

definition abspath :: "env \<Rightarrow> string \<Rightarrow> string" where
  "abspath e p = join (cwd e) p"

definition exists :: "env \<Rightarrow> string \<Rightarrow> bool" where
  "exists e p = (files e (abspath e p) \<noteq> None)"

text \<open>
  \<^verbatim>\<open>load_data\<close>: read the CSV, parse the payment dates, sort by payment date. Reading a
  file that is not there, or is not a payment table, raises.
\<close>

definition load_data :: "env \<Rightarrow> string \<Rightarrow> error + payment frame" where
  "load_data e file_path =
     (case files e (abspath e file_path) of
        None \<Rightarrow> Inl (FileNotFoundError (''No such file or directory: '' @ file_path))
      | Some (CsvFile df) \<Rightarrow>
          Inr (df\<lparr>rows := sort_key (\<lambda>r. to_ordinal (payment_date r)) (rows df)\<rparr>)
      | Some _ \<Rightarrow> Inl (LibraryError ''read_csv''))"

subsection \<open>Loading the model\<close>

definition load_model :: "engine \<Rightarrow> env \<Rightarrow> string option \<Rightarrow> error + engine" where
  "load_model eng e model_path =
     (let path0 = (case model_path of None \<Rightarrow> MODEL_PATH
                   | Some p \<Rightarrow> if p = [] then MODEL_PATH else p);
          path_to_use =
            (if \<not> isabs path0 then
               (if exists e path0 then abspath e path0
                else let potential_path = join (script_dir e) path0
                     in if exists e potential_path then potential_path
                        else let parent_path = join (dirname (script_dir e)) path0
                             in if exists e parent_path then parent_path else path0)
             else path0)
      in if \<not> exists e path_to_use
         then Inl (FileNotFoundError
                (''Model not found at '' @ path_to_use @ ''. Please train the model first.''))
         else (case files e (abspath e path_to_use) of
                 Some (ModelFile m names) \<Rightarrow>
                   Inr (eng\<lparr>model := Some m, feature_names := Some names\<rparr>)
               | _ \<Rightarrow> Inl (LibraryError ''joblib.load'')))"

subsection \<open>Single prediction\<close>

text \<open>Lines 169--186: the demand date one calendar month after the last one.\<close>

definition next_demand :: "date \<Rightarrow> error + date" where
  "next_demand last_demand_date =
     (let day_of_month = day last_demand_date;
          next_year = (if month last_demand_date = 12 then year last_demand_date + 1
                       else year last_demand_date);
          next_month = (if month last_demand_date = 12 then 1
                        else month last_demand_date + 1)
      in case Timestamp next_year next_month day_of_month of
           Inr t \<Rightarrow> Inr t
         | Inl _ \<Rightarrow>
            (case monthrange next_year next_month of
               Inl err \<Rightarrow> Inl err
             | Inr (_, last_day) \<Rightarrow>
                 Timestamp next_year next_month (min day_of_month last_day)))"

text \<open>A comparison with NaN is false.\<close>

definition fgt :: "fval \<Rightarrow> real \<Rightarrow> bool" where
  "fgt v c = (case v of NaN \<Rightarrow> False | Fl x \<Rightarrow> c < x)"

definition flt :: "fval \<Rightarrow> real \<Rightarrow> bool" where
  "flt v c = (case v of NaN \<Rightarrow> False | Fl x \<Rightarrow> x < c)"

definition calculate_confidence :: "features \<Rightarrow> real" where
  "calculate_confidence fs =
     (let confidence = 7 / 10;
          confidence = (if total_payments fs > 10 then confidence + 1 / 10
                        else if total_payments fs > 5 then confidence + 5 / 100
                        else confidence);
          confidence = (if fgt (std_delay fs) 10 then confidence - 1 / 10
                        else if flt (std_delay fs) 3 then confidence + 1 / 10
                        else confidence)
      in min (95 / 100) (max (5 / 10) confidence))"

text \<open>\<^verbatim>\<open>X.reindex(columns=self.feature_names, fill_value=0)\<close>, as the row of values.\<close>

definition reindex :: "string list option \<Rightarrow> (string \<times> fval) list \<Rightarrow> fval list" where
  "reindex names cols =
     (case names of None \<Rightarrow> map snd cols
      | Some ns \<Rightarrow> map (\<lambda>n. case map_of cols n of None \<Rightarrow> Fl 0 | Some v \<Rightarrow> v) ns)"

definition regressor_predict :: "regressor \<Rightarrow> fval list \<Rightarrow> error + real" where
  "regressor_predict m x =
     (case m of Unfitted \<Rightarrow> Inl (LibraryError ''NotFittedError'') | Fitted f \<Rightarrow> Inr (f x))"

text \<open>The result dictionary; dates stand for their \<^verbatim>\<open>%Y-%m-%d\<close> strings.\<close>

record prediction =
  res_customer_id :: string
  predicted_payment_date :: date
  days_until_payment :: int
  res_last_payment_date :: date
  last_demand_date :: "date option"
  next_demand_date :: "date option"
  confidence_score :: real
  payment_history :: "(date \<times> int option) list"
  average_delay :: fval
  payment_count :: nat

text \<open>Lines 125--227 of \<^verbatim>\<open>predict_next_payment_date\<close>: everything after the lazy load.\<close>

definition predict_loaded ::
  "engine \<Rightarrow> env \<Rightarrow> date \<Rightarrow> string \<Rightarrow> string \<Rightarrow> error + prediction" where
  "predict_loaded eng e now cid data_path =
     (case load_data e data_path of
        Inl err \<Rightarrow> Inl err
      | Inr df0 \<Rightarrow>
         let df = calculate_payment_delays df0;
             customer_df = filter (\<lambda>r. customer_id r = cid) (rows df)
         in if length customer_df < MIN_HISTORY_RECORDS
            then Inl (ValueError ''Customer needs at least 3 payment records'')
            else (case engineer_features (rows df) cid now of
               None \<Rightarrow> Inl (ValueError ''Could not engineer features for customer'')
             | Some fs \<Rightarrow>
                let X = reindex (feature_names eng) (numeric_columns fs);
                    history = map (\<lambda>r. (payment_date r, delay_days r)) customer_df;
                    avg = pd_mean (map delay_days customer_df);
                    last_demand =
                      (if has_scheduled df \<and> length customer_df > 0
                       then scheduled_date (last customer_df) else None)
                in (case (case last_demand of None \<Rightarrow> Inr None
                          | Some d \<Rightarrow> map_sum id Some (next_demand d)) of
                     Inl err \<Rightarrow> Inl err
                   | Inr next_dd \<Rightarrow>
                      (case (case next_dd of
                               Some nd \<Rightarrow>
                                 (case int_round avg of Inl err \<Rightarrow> Inl err
                                  | Inr delay \<Rightarrow> Inr (add_days nd delay))
                             | None \<Rightarrow>
                                 (case model eng of
                                    None \<Rightarrow> Inl (LibraryError ''AttributeError'')
                                  | Some m \<Rightarrow>
                                     (case regressor_predict m X of Inl err \<Rightarrow> Inl err
                                      | Inr p \<Rightarrow>
                                          Inr (add_days (last_payment_date fs)
                                                 (max 0 (py_round p)))))) of
                         Inl err \<Rightarrow> Inl err
                       | Inr predicted_date \<Rightarrow>
                           Inr \<lparr>res_customer_id = cid,
                                predicted_payment_date = predicted_date,
                                days_until_payment =
                                  days_between predicted_date (last_payment_date fs),
                                res_last_payment_date = last_payment_date fs,
                                last_demand_date = last_demand,
                                next_demand_date = next_dd,
                                confidence_score = calculate_confidence fs,
                                payment_history = drop (length history - 5) history,
                                average_delay = avg,
                                payment_count = length customer_df\<rparr>))))"

text \<open>
  The whole call. Lines 122--123 come first: the model is loaded when the engine has
  none. The engine is returned with the result, since loading changes it.
\<close>

definition ensure_model :: "engine \<Rightarrow> env \<Rightarrow> error + engine" where
  "ensure_model eng e = (if model eng = None then load_model eng e None else Inr eng)"

definition predict_next_payment_date ::
  "engine \<Rightarrow> env \<Rightarrow> date \<Rightarrow> string \<Rightarrow> string \<Rightarrow> engine \<times> (error + prediction)" where
  "predict_next_payment_date eng e now cid data_path =
     (case ensure_model eng e of
        Inl err \<Rightarrow> (eng, Inl err)
      | Inr eng1 \<Rightarrow> (eng1, predict_loaded eng1 e now cid data_path))"

subsection \<open>Batch prediction\<close>

text \<open>The loop of \<^verbatim>\<open>predict_batch\<close>, with the list \<open>results\<close> built so far.\<close>

fun predict_batch_loop ::
  "engine \<Rightarrow> env \<Rightarrow> date \<Rightarrow> string list \<Rightarrow> string \<Rightarrow> prediction list
     \<Rightarrow> engine \<times> prediction list" where
  "predict_batch_loop eng e now [] data_path results = (eng, results)"
| "predict_batch_loop eng e now (cid # rest) data_path results =
     (case predict_next_payment_date eng e now cid data_path of
        (eng1, Inr r) \<Rightarrow> predict_batch_loop eng1 e now rest data_path (results @ [r])
      | (eng1, Inl err) \<Rightarrow> predict_batch_loop eng1 e now rest data_path results)"

definition predict_batch ::
  "engine \<Rightarrow> env \<Rightarrow> date \<Rightarrow> string list \<Rightarrow> string \<Rightarrow> engine \<times> prediction list" where
  "predict_batch eng e now customer_ids data_path =
     predict_batch_loop eng e now customer_ids data_path []"

subsection \<open>Training\<close>

record metrics =
  train_mae :: real
  test_mae :: real
  train_rmse :: real
  test_rmse :: real

text \<open>scikit-learn's error measures; both raise on empty input.\<close>

definition mean_absolute_error :: "int list \<Rightarrow> real list \<Rightarrow> error + real" where
  "mean_absolute_error ys ps =
     (if ys = [] \<or> length ys \<noteq> length ps then Inl (ValueError ''inconsistent samples'')
      else Inr ((\<Sum>(y, p)\<leftarrow>zip ys ps. \<bar>real_of_int y - p\<bar>) / real (length ys)))"

definition mean_squared_error :: "int list \<Rightarrow> real list \<Rightarrow> error + real" where
  "mean_squared_error ys ps =
     (if ys = [] \<or> length ys \<noteq> length ps then Inl (ValueError ''inconsistent samples'')
      else Inr ((\<Sum>(y, p)\<leftarrow>zip ys ps. (real_of_int y - p)\<^sup>2) / real (length ys)))"

definition evaluate ::
  "(fval list \<Rightarrow> real) \<Rightarrow> fval list list \<Rightarrow> int list \<Rightarrow> fval list list \<Rightarrow> int list
     \<Rightarrow> error + metrics" where
  "evaluate f X_train y_train X_test y_test =
     (let y_pred_train = map f X_train; y_pred_test = map f X_test
      in case mean_absolute_error y_train y_pred_train of Inl err \<Rightarrow> Inl err
        | Inr a1 \<Rightarrow>
       (case mean_absolute_error y_test y_pred_test of Inl err \<Rightarrow> Inl err
        | Inr a2 \<Rightarrow>
       (case mean_squared_error y_train y_pred_train of Inl err \<Rightarrow> Inl err
        | Inr s1 \<Rightarrow>
       (case mean_squared_error y_test y_pred_test of Inl err \<Rightarrow> Inl err
        | Inr s2 \<Rightarrow>
           Inr \<lparr>train_mae = a1, test_mae = a2,
                train_rmse = sqrt s1, test_rmse = sqrt s2\<rparr>))))"

text \<open>
  \<^verbatim>\<open>train_model\<close> returns the engine and the file system as it leaves them, with the
  metrics or the exception raised.
\<close>

definition train_model ::
  "engine \<Rightarrow> env \<Rightarrow> date \<Rightarrow> string \<Rightarrow> (engine \<times> env) \<times> (error + metrics)" where
  "train_model eng e now data_path =
     (case load_data e data_path of
        Inl err \<Rightarrow> ((eng, e), Inl err)
      | Inr df0 \<Rightarrow>
         let df = calculate_payment_delays df0
         in (case prepare_training_data now (rows df) of
               None \<Rightarrow> ((eng, e), Inl (ValueError ''Insufficient data for training''))
             | Some (X, y) \<Rightarrow>
                if length X = 0
                then ((eng, e), Inl (ValueError ''Insufficient data for training''))
                else (case train_test_split e (map (map snd) X) y of
                   Inl err \<Rightarrow> ((eng, e), Inl err)
                 | Inr (X_train, X_test, y_train, y_test) \<Rightarrow>
                    let eng1 = eng\<lparr>model := Some Unfitted\<rparr>
                    in (case xgb_fit e X_train y_train of
                          Inl err \<Rightarrow> ((eng1, e), Inl err)
                        | Inr f \<Rightarrow>
                           let names = map fst (hd X);
                               eng2 = eng1\<lparr>model := Some (Fitted f),
                                            feature_names := Some names\<rparr>
                           in (case evaluate f X_train y_train X_test y_test of
                                 Inl err \<Rightarrow> ((eng2, e), Inl err)
                               | Inr ms \<Rightarrow>
                                  if \<not> writable e (abspath e MODEL_PATH)
                                  then ((eng2, e), Inl (LibraryError ''joblib.dump''))
                                  else ((eng2,
                                         e\<lparr>files := (files e)
                                            (abspath e MODEL_PATH \<mapsto>
                                               ModelFile (Fitted f) names)\<rparr>),
                                        Inr ms))))))"

section \<open>A worked example\<close>

text \<open>
  A table with a customer \<open>A\<close> of three payments, 3, 4 and 5 days late, the last one due
  on 2024-01-31, and a customer \<open>B\<close> of one payment; a file system with and without a
  model artifact.
\<close>

definition ex_date :: "int \<Rightarrow> int \<Rightarrow> int \<Rightarrow> date" where
  "ex_date y m d = \<lparr>year = y, month = m, day = d\<rparr>"

definition ex_payment :: "string \<Rightarrow> date \<Rightarrow> date option \<Rightarrow> payment" where
  "ex_payment c p s = \<lparr>customer_id = c, payment_date = p, scheduled_date = s\<rparr>"

definition ex_table :: "payment frame" where
  "ex_table = \<lparr>has_scheduled = True, rows =
     [ex_payment ''A'' (ex_date 2023 12 3) (Some (ex_date 2023 11 30)),
      ex_payment ''A'' (ex_date 2024 1 4) (Some (ex_date 2023 12 31)),
      ex_payment ''B'' (ex_date 2024 1 5) (Some (ex_date 2024 1 5)),
      ex_payment ''A'' (ex_date 2024 2 5) (Some (ex_date 2024 1 31))]\<rparr>"

definition ex_env_bare :: env where
  "ex_env_bare = \<lparr>cwd = ''/srv'', script_dir = ''/srv/app'',
     files = [''/srv/history.csv'' \<mapsto> CsvFile ex_table],
     writable = (\<lambda>p. True),
     train_test_split = (\<lambda>X y. Inr (X, X, y, y)),
     xgb_fit = (\<lambda>X y. Inr (\<lambda>x. 30))\<rparr>"

definition ex_env :: env where
  "ex_env = ex_env_bare\<lparr>files := (files ex_env_bare)
     (''/srv/models/emi_predictor_model.pkl'' \<mapsto> ModelFile (Fitted (\<lambda>x. 30)) [''total_payments''])\<rparr>"

definition ex_engine :: engine where
  "ex_engine = \<lparr>model = None, feature_names = None\<rparr>"

definition ex_loaded :: engine where
  "ex_loaded = \<lparr>model = Some (Fitted (\<lambda>x. 30)), feature_names = Some [''total_payments'']\<rparr>"

definition ex_other :: engine where
  "ex_other = \<lparr>model = Some (Fitted (\<lambda>x. 7)), feature_names = None\<rparr>"

definition ex_history :: "dpayment list" where
  "ex_history =
     [with_delay (ex_payment ''A'' (ex_date 2023 12 3) (Some (ex_date 2023 11 30))) (Some 3),
      with_delay (ex_payment ''A'' (ex_date 2024 1 4) (Some (ex_date 2023 12 31))) (Some 4),
      with_delay (ex_payment ''A'' (ex_date 2024 2 5) (Some (ex_date 2024 1 31))) (Some 5)]"

definition ex_mixed :: "payment frame" where
  "ex_mixed = \<lparr>has_scheduled = True, rows =
     [ex_payment ''A'' (ex_date 2024 1 1) (Some (ex_date 2024 1 1)),
      ex_payment ''A'' (ex_date 2024 2 1) None]\<rparr>"

definition ex_two :: "payment frame" where
  "ex_two = \<lparr>has_scheduled = False, rows =
     [ex_payment ''A'' (ex_date 2024 1 1) None,
      ex_payment ''B'' (ex_date 2024 1 5) None,
      ex_payment ''B'' (ex_date 2024 2 5) None]\<rparr>"

subsection \<open>The confidence heuristic as the specification words it\<close>

text \<open>
  Start at 0.70; add 0.10 for more than 10 payments, else 0.05 for more than 5; subtract
  0.10 when the standard deviation of the delay exceeds 10, add 0.10 when it is below 3;
  clamp to the interval from 0.50 to 0.95.
\<close>

definition confidence_spec :: "nat \<Rightarrow> fval \<Rightarrow> real" where
  "confidence_spec n sd =
     (let history_bonus = (if n > 10 then 10 / 100 else if n > 5 then 5 / 100 else 0);
          volatility = (if fgt sd 10 then - (10 / 100) else if flt sd 3 then 10 / 100 else 0);
          score = 70 / 100 + history_bonus + volatility
      in if score < 50 / 100 then 50 / 100 else if 95 / 100 < score then 95 / 100 else score)"

subsection \<open>The calendar model is coherent\<close>

lemma div_step:
  fixes y k :: int
  assumes "0 < k"
  shows "y div k = (y - 1) div k + (if y mod k = 0 then 1 else 0)"
proof (cases "y mod k = 0")
  case True
  then obtain q where q: "y = k * q" by auto
  have "y - 1 = k * (q - 1) + (k - 1)" using q by (simp add: algebra_simps)
  then have "(y - 1) div k = q - 1"
    by (rule int_div_pos_eq) (use assms in simp_all)
  then show ?thesis using q assms True by simp
next
  case False
  define r where "r = y mod k"
  have r: "0 < r" "r < k"
    using False pos_mod_bound [OF assms, of y] pos_mod_sign [OF assms, of y]
    by (simp_all add: r_def)
  have "y - 1 = k * (y div k) + (r - 1)" by (simp add: r_def)
  then have "(y - 1) div k = y div k"
    by (rule int_div_pos_eq) (use r in simp_all)
  then show ?thesis using False by simp
qed

lemma mod_100_4: "(y::int) mod 100 = 0 \<Longrightarrow> y mod 4 = 0"
proof -
  assume "y mod 100 = 0"
  then have "100 dvd y" by (simp add: mod_eq_0_iff_dvd)
  moreover have "(4::int) dvd 100" by simp
  ultimately have "4 dvd y" by (rule dvd_trans [rotated])
  then show ?thesis by (simp add: mod_eq_0_iff_dvd)
qed

lemma mod_400_100: "(y::int) mod 400 = 0 \<Longrightarrow> y mod 100 = 0"
proof -
  assume "y mod 400 = 0"
  then have "400 dvd y" by (simp add: mod_eq_0_iff_dvd)
  moreover have "(100::int) dvd 400" by simp
  ultimately have "100 dvd y" by (rule dvd_trans [rotated])
  then show ?thesis by (simp add: mod_eq_0_iff_dvd)
qed

lemma leap_arith:
  fixes q4 q100 q400 y :: int
  assumes "p100 \<Longrightarrow> p4" "p400 \<Longrightarrow> p100"
  shows "y * 365 + (q4 + (if p4 then 1 else 0)) - (q100 + (if p100 then 1 else 0))
           + (q400 + (if p400 then 1 else 0))
         = (y - 1) * 365 + q4 - q100 + q400
           + (if p4 \<and> (\<not> p100 \<or> p400) then 366 else 365)"
  using assms by (cases p4; cases p100; cases p400; simp add: algebra_simps)

lemma days_before_year_Suc:
  "days_before_year (y + 1) = days_before_year y + (if is_leap y then 366 else 365)"
proof -
  have a: "y div 4 = (y - 1) div 4 + (if y mod 4 = 0 then 1 else 0)"
    "y div 100 = (y - 1) div 100 + (if y mod 100 = 0 then 1 else 0)"
    "y div 400 = (y - 1) div 400 + (if y mod 400 = 0 then 1 else 0)"
    by (rule div_step, simp)+
  have "days_before_year (y + 1) = y * 365 + y div 4 - y div 100 + y div 400"
    by (simp add: days_before_year_def)
  also have "\<dots> = days_before_year y + (if is_leap y then 366 else 365)"
    unfolding a days_before_year_def is_leap_def
    by (rule leap_arith [OF mod_100_4 mod_400_100])
  finally show ?thesis .
qed

lemma month_cases:
  assumes "1 \<le> m" "m \<le> (12::int)"
  shows "m = 1 \<or> m = 2 \<or> m = 3 \<or> m = 4 \<or> m = 5 \<or> m = 6
    \<or> m = 7 \<or> m = 8 \<or> m = 9 \<or> m = 10 \<or> m = 11 \<or> m = 12"
  using assms by arith

lemma days_before_month_Suc:
  assumes "1 \<le> m" "m < 12"
  shows "days_before_month y (m + 1) = days_before_month y m + days_in_month y m"
proof -
  from assms have "1 \<le> m" "m \<le> 12" by auto
  from month_cases [OF this] assms(2) show ?thesis
    by (elim disjE) (simp_all add: days_before_month_def days_in_month_def)
qed

lemma days_before_month_12:
  "days_before_month y 12 + 31 = (if is_leap y then 366 else 365)"
  by (simp add: days_before_month_def)

lemma days_before_month_1: "days_before_month y 1 = 0"
  by (simp add: days_before_month_def)

lemma days_in_month_pos: "28 \<le> days_in_month y m"
  by (simp add: days_in_month_def)

lemma next_day_valid: "valid_date d \<Longrightarrow> valid_date (next_day d)"
  using days_in_month_pos [of "year d" "month d + 1"]
  by (auto simp: valid_date_def next_day_def days_in_month_def)

lemma to_ordinal_next_day:
  assumes "valid_date d"
  shows "to_ordinal (next_day d) = to_ordinal d + 1"
proof -
  from assms have m: "1 \<le> month d" "month d \<le> 12"
    and dd: "day d \<le> days_in_month (year d) (month d)"
    by (auto simp: valid_date_def)
  show ?thesis
  proof (cases "day d < days_in_month (year d) (month d)")
    case True
    then show ?thesis by (simp add: next_day_def to_ordinal_def)
  next
    case False
    with dd have eq: "day d = days_in_month (year d) (month d)" by simp
    show ?thesis
    proof (cases "month d < 12")
      case True
      with False eq m days_before_month_Suc [of "month d" "year d"] show ?thesis
        by (simp add: next_day_def to_ordinal_def)
    next
      case b: False
      with m have m12: "month d = 12" by simp
      with eq have d31: "day d = 31" by (simp add: days_in_month_def)
      from False b m12 d31 days_before_year_Suc [of "year d"]
        days_before_month_12 [of "year d"] days_before_month_1 [of "year d + 1"]
      show ?thesis
        by (simp add: next_day_def to_ordinal_def split: if_splits)
    qed
  qed
qed

lemma prev_day_valid: "valid_date d \<Longrightarrow> valid_date (prev_day d)"
  using days_in_month_pos [of "year d" "month d - 1"]
  by (auto simp: valid_date_def prev_day_def days_in_month_def)

lemma next_prev_day:
  assumes "valid_date d"
  shows "next_day (prev_day d) = d"
proof -
  from assms have m: "1 \<le> month d" "month d \<le> 12" and d1: "1 \<le> day d"
    and dd: "day d \<le> days_in_month (year d) (month d)"
    by (auto simp: valid_date_def)
  show ?thesis
  proof (cases "1 < day d")
    case True
    with dd show ?thesis by (simp add: next_day_def prev_day_def)
  next
    case False
    with d1 have d: "day d = 1" by simp
    show ?thesis
    proof (cases "1 < month d")
      case True
      with False d m show ?thesis by (simp add: next_day_def prev_day_def)
    next
      case b: False
      with m have "month d = 1" by simp
      with False d show ?thesis
        by (simp add: next_day_def prev_day_def days_in_month_def)
    qed
  qed
qed

lemma to_ordinal_prev_day:
  assumes "valid_date d"
  shows "to_ordinal (prev_day d) = to_ordinal d - 1"
  using to_ordinal_next_day [OF prev_day_valid [OF assms]] next_prev_day [OF assms]
  by simp

lemma funpow_next_day:
  "valid_date d \<Longrightarrow>
     valid_date ((next_day ^^ n) d) \<and> to_ordinal ((next_day ^^ n) d) = to_ordinal d + int n"
  by (induction n) (simp_all add: next_day_valid to_ordinal_next_day)

lemma funpow_prev_day:
  "valid_date d \<Longrightarrow>
     valid_date ((prev_day ^^ n) d) \<and> to_ordinal ((prev_day ^^ n) d) = to_ordinal d - int n"
  by (induction n) (simp_all add: prev_day_valid to_ordinal_prev_day)

lemma add_days_valid: "valid_date d \<Longrightarrow> valid_date (add_days d n)"
  by (simp add: add_days_def funpow_next_day funpow_prev_day)

lemma to_ordinal_add_days: "valid_date d \<Longrightarrow> to_ordinal (add_days d n) = to_ordinal d + n"
  by (simp add: add_days_def funpow_next_day funpow_prev_day)


section \<open>The confidence score\<close>

text \<open>
  C4. For every feature vector the confidence score computed by \<^verbatim>\<open>_calculate_confidence\<close>
  equals the score the specification describes (start at 0.70, the bonus for the length of
  the history, the adjustment for the standard deviation of the delay, the clamp), and it
  lies between 0.50 and 0.95 whatever the standard deviation is, NaN included.
\<close>

theorem confidence_score_spec_and_bounds:
  "calculate_confidence fs = confidence_spec (total_payments fs) (std_delay fs)
   \<and> 50 / 100 \<le> calculate_confidence fs \<and> calculate_confidence fs \<le> 95 / 100"
  by (cases "std_delay fs")
     (simp_all add: calculate_confidence_def confidence_spec_def fgt_def flt_def Let_def)

section \<open>Facts about delays and the lazy load\<close>

lemma length_diff_days: "length (diff_days ds) = length ds"
  by (cases ds) (simp_all add: diff_days_def)

lemma length_fillna: "length (fillna c vs) = length vs"
  by (simp add: fillna_def)

lemma map2_with_delay_fields:
  assumes "length vs = length xs"
  shows "map customer_id (map2 with_delay xs vs) = map customer_id xs"
    and "map payment_date (map2 with_delay xs vs) = map payment_date xs"
    and "map scheduled_date (map2 with_delay xs vs) = map scheduled_date xs"
    and "map delay_days (map2 with_delay xs vs) = vs"
  using assms by (induction xs vs rule: list_induct2') (simp_all add: with_delay_def)

lemma delays_customer_id:
  "map customer_id (rows (calculate_payment_delays df)) = map customer_id (rows df)"
proof (cases "has_scheduled df")
  case True
  then show ?thesis by (simp add: calculate_payment_delays_def with_delay_def comp_def)
next
  case False
  then show ?thesis
    by (simp del: map_map
        add: calculate_payment_delays_def map2_with_delay_fields length_fillna length_diff_days)
qed

lemma delays_payment_date:
  "map payment_date (rows (calculate_payment_delays df)) = map payment_date (rows df)"
proof (cases "has_scheduled df")
  case True
  then show ?thesis by (simp add: calculate_payment_delays_def with_delay_def comp_def)
next
  case False
  then show ?thesis
    by (simp del: map_map
        add: calculate_payment_delays_def map2_with_delay_fields length_fillna length_diff_days)
qed

lemma delays_scheduled_date:
  "map scheduled_date (rows (calculate_payment_delays df)) = map scheduled_date (rows df)"
proof (cases "has_scheduled df")
  case True
  then show ?thesis by (simp add: calculate_payment_delays_def with_delay_def comp_def)
next
  case False
  then show ?thesis
    by (simp del: map_map
        add: calculate_payment_delays_def map2_with_delay_fields length_fillna length_diff_days)
qed

lemma delays_has_scheduled:
  "has_scheduled (calculate_payment_delays df) = has_scheduled df"
  by (simp add: calculate_payment_delays_def)

lemma length_delays: "length (rows (calculate_payment_delays df)) = length (rows df)"
  using arg_cong [OF delays_customer_id, of length] by simp

lemma count_customer_rows:
  "length (filter (\<lambda>r. customer_id r = cid) xs) = length (filter (\<lambda>c. c = cid) (map customer_id xs))"
  by (induction xs) simp_all

lemma ensure_model_idem:
  assumes "ensure_model eng e = Inr eng1"
  shows "model eng1 \<noteq> None" and "ensure_model eng1 e = Inr eng1"
proof -
  show m: "model eng1 \<noteq> None"
    using assms
    by (auto simp: ensure_model_def load_model_def Let_def
        split: if_splits option.splits file_content.splits)
  then show "ensure_model eng1 e = Inr eng1" by (auto simp: ensure_model_def)
qed

lemma ensure_model_fail_keeps:
  "ensure_model eng e = Inl err \<Longrightarrow> model eng = None"
  by (auto simp: ensure_model_def split: if_splits)

lemma predict_after_predict:
  "snd (predict_next_payment_date (fst (predict_next_payment_date eng e now c p)) e now' c' p')
     = snd (predict_next_payment_date eng e now' c' p')"
proof (cases "ensure_model eng e")
  case (Inl err)
  then show ?thesis by (simp add: predict_next_payment_date_def)
next
  case (Inr eng1)
  from ensure_model_idem(2) [OF this] Inr show ?thesis
    by (simp add: predict_next_payment_date_def)
qed

lemma engineer_features_clock:
  "engineer_features df cid now' =
     map_option (\<lambda>f. f\<lparr>days_since_last_payment := days_between now' (last_payment_date f)\<rparr>)
       (engineer_features df cid now)"
  by (simp add: engineer_features_def Let_def)

lemma calculate_confidence_clock:
  "calculate_confidence (f\<lparr>days_since_last_payment := k\<rparr>) = calculate_confidence f"
  by (simp add: calculate_confidence_def Let_def cong: if_cong)

lemma next_demand_valid:
  assumes "valid_date d"
  shows "\<exists>nd. next_demand d = Inr nd
     \<and> year nd = (if month d = 12 then year d + 1 else year d)
     \<and> month nd = (if month d = 12 then 1 else month d + 1)
     \<and> day nd = min (day d) (days_in_month (year nd) (month nd))
     \<and> valid_date nd"
proof -
  define ny where "ny = (if month d = 12 then year d + 1 else year d)"
  define nm where "nm = (if month d = 12 then 1 else month d + 1)"
  from assms have nm: "1 \<le> nm" "nm \<le> 12" and d1: "1 \<le> day d"
    by (auto simp: nm_def valid_date_def)
  have dim: "1 \<le> days_in_month ny nm" using days_in_month_pos [of ny nm] by simp
  show ?thesis
  proof (cases "day d \<le> days_in_month ny nm")
    case True
    with nm d1 have "next_demand d = Inr \<lparr>year = ny, month = nm, day = day d\<rparr>"
      by (simp add: next_demand_def Let_def Timestamp_def valid_date_def ny_def nm_def)
    with True nm d1 show ?thesis
      by (simp add: valid_date_def ny_def nm_def min_def)
  next
    case False
    with nm d1 dim have
      "next_demand d = Inr \<lparr>year = ny, month = nm, day = days_in_month ny nm\<rparr>"
      by (simp add: next_demand_def Let_def Timestamp_def valid_date_def monthrange_def
          ny_def nm_def min_def)
    with False nm dim show ?thesis
      by (simp add: valid_date_def ny_def nm_def min_def)
  qed
qed

lemma set_dropna: "x \<in> set (dropna vs) \<longleftrightarrow> Some x \<in> set vs"
  by (induction vs) (auto simp: dropna_def List.map_filter_simps split: option.splits)

lemma delays_when_scheduled:
  assumes "has_scheduled df" and "r \<in> set (rows (calculate_payment_delays df))"
  shows "delay_days r =
     (case scheduled_date r of None \<Rightarrow> None
      | Some s \<Rightarrow> Some (days_between (payment_date r) s))"
  using assms by (auto simp: calculate_payment_delays_def with_delay_def split: option.splits)

text \<open>The result of the primary path, written out.\<close>

lemma predict_loaded_primary:
  assumes load: "load_data e p = Inr df"
    and cdf: "cdf = filter (\<lambda>r. customer_id r = cid) (rows (calculate_payment_delays df))"
    and len: "MIN_HISTORY_RECORDS \<le> length cdf"
    and col: "has_scheduled df"
    and last: "scheduled_date (last cdf) = Some d"
    and nd: "next_demand d = Inr nd"
    and fs: "engineer_features (rows (calculate_payment_delays df)) cid now = Some fs"
    and m: "pd_mean (map delay_days cdf) = Fl m"
  shows "predict_loaded eng e now cid p =
     Inr \<lparr>res_customer_id = cid,
          predicted_payment_date = add_days nd (py_round m),
          days_until_payment = days_between (add_days nd (py_round m)) (last_payment_date fs),
          res_last_payment_date = last_payment_date fs,
          last_demand_date = Some d,
          next_demand_date = Some nd,
          confidence_score = calculate_confidence fs,
          payment_history =
            drop (length cdf - 5) (map (\<lambda>r. (payment_date r, delay_days r)) cdf),
          average_delay = Fl m,
          payment_count = length cdf\<rparr>"
proof -
  from len have pos: "cdf \<noteq> []" by (auto simp: MIN_HISTORY_RECORDS_def)
  from len have nlt: "\<not> length cdf < MIN_HISTORY_RECORDS" by simp
  show ?thesis
    unfolding predict_loaded_def load sum.case Let_def cdf [symmetric]
    using nlt pos col last nd fs m
    by (simp add: delays_has_scheduled int_round_def)
qed

lemma engineer_features_Some:
  assumes "2 \<le> length (filter (\<lambda>r. customer_id r = cid) df)"
  shows "\<exists>fs. engineer_features df cid now = Some fs"
  using assms by (simp add: engineer_features_def Let_def)

lemma pd_mean_Fl:
  assumes "Some x \<in> set vs"
  shows "pd_mean vs = Fl (real_of_int (sum_list (dropna vs)) / real (length (dropna vs)))"
proof -
  from assms have "dropna vs \<noteq> []" using set_dropna [of x vs] by auto
  then show ?thesis by (simp add: pd_mean_def Let_def)
qed

lemma last_delay_defined:
  assumes col: "has_scheduled df"
    and cdf: "cdf = filter (\<lambda>r. customer_id r = cid) (rows (calculate_payment_delays df))"
    and pos: "cdf \<noteq> []"
    and last: "scheduled_date (last cdf) = Some d"
  shows "Some (days_between (payment_date (last cdf)) d) \<in> set (map delay_days cdf)"
proof -
  from pos have "last cdf \<in> set cdf" by simp
  then have mem: "last cdf \<in> set (rows (calculate_payment_delays df))" by (simp add: cdf)
  from delays_when_scheduled [OF col mem] last
  have "delay_days (last cdf) = Some (days_between (payment_date (last cdf)) d)" by simp
  with \<open>last cdf \<in> set cdf\<close> show ?thesis by force
qed


section \<open>The worked example, evaluated\<close>

lemmas ex_defs = ex_date_def ex_payment_def ex_table_def ex_env_bare_def ex_env_def ex_engine_def
lemmas path_defs = MODEL_PATH_def isabs_def join_def abspath_def exists_def dirname_def


lemmas cal_defs = to_ordinal_def days_before_year_def days_before_month_def is_leap_def
  days_in_month_def valid_date_def days_between_def

lemma ex_ensure_model: "ensure_model ex_engine ex_env = Inr ex_loaded"
  by (simp add: ensure_model_def load_model_def Let_def ex_defs path_defs ex_loaded_def)

lemma ex_ensure_other: "ensure_model ex_other ex_env = Inr ex_other"
  by (simp add: ensure_model_def ex_other_def)

lemma ex_load_data: "load_data ex_env ''history.csv'' = Inr ex_table"
  by (simp add: load_data_def ex_defs path_defs cal_defs)

lemma ex_customer_rows:
  "filter (\<lambda>r. customer_id r = ''A'') (rows (calculate_payment_delays ex_table)) = ex_history"
  by (simp add: calculate_payment_delays_def ex_defs ex_history_def with_delay_def cal_defs)

lemma ex_last_history:
  "scheduled_date (last ex_history) = Some (ex_date 2024 1 31)"
  by (simp add: ex_history_def with_delay_def ex_defs)

section \<open>The model is required first\<close>

text \<open>
  C10. When the engine holds no model and none of the candidate paths of the model
  artifact exists, \<^verbatim>\<open>predict_next_payment_date\<close> fails with the model-not-found error
  (\<^verbatim>\<open>FileNotFoundError\<close>) before it reads any data, whatever the customer and the table
  are: also for a customer whose latest record has a demand date, where the regressor
  would not be used.
\<close>

theorem model_required_first:
  assumes "model eng = None"
    and "\<not> exists e MODEL_PATH"
    and "\<not> exists e (join (script_dir e) MODEL_PATH)"
    and "\<not> exists e (join (dirname (script_dir e)) MODEL_PATH)"
  shows "predict_next_payment_date eng e now cid data_path =
     (eng, Inl (FileNotFoundError
        (''Model not found at '' @ MODEL_PATH @ ''. Please train the model first.'')))"
proof -
  have "\<not> isabs MODEL_PATH" by (simp add: MODEL_PATH_def isabs_def)
  with assms have "load_model eng e None =
      Inl (FileNotFoundError
        (''Model not found at '' @ MODEL_PATH @ ''. Please train the model first.''))"
    by (simp add: load_model_def Let_def)
  with assms(1) show ?thesis
    by (simp add: predict_next_payment_date_def ensure_model_def)
qed

theorem model_required_first_witness:
  "model ex_engine = None
   \<and> \<not> exists ex_env_bare MODEL_PATH
   \<and> \<not> exists ex_env_bare (join (script_dir ex_env_bare) MODEL_PATH)
   \<and> \<not> exists ex_env_bare (join (dirname (script_dir ex_env_bare)) MODEL_PATH)
   \<and> load_data ex_env_bare ''history.csv'' \<noteq> Inl (FileNotFoundError ''x'')
   \<and> predict_next_payment_date ex_engine ex_env_bare (ex_date 2024 3 1) ''A'' ''history.csv'' =
       (ex_engine, Inl (FileNotFoundError
          (''Model not found at '' @ MODEL_PATH @ ''. Please train the model first.'')))"
proof -
  have h: "model ex_engine = None"
    "\<not> exists ex_env_bare MODEL_PATH"
    "\<not> exists ex_env_bare (join (script_dir ex_env_bare) MODEL_PATH)"
    "\<not> exists ex_env_bare (join (dirname (script_dir ex_env_bare)) MODEL_PATH)"
    by (simp_all add: ex_defs path_defs)
  have "load_data ex_env_bare ''history.csv'' \<noteq> Inl (FileNotFoundError ''x'')"
    by (simp add: load_data_def ex_defs path_defs)
  with h model_required_first [OF h] show ?thesis by simp
qed


section \<open>Too short a history\<close>

text \<open>
  C6. Once the call has a model (the engine holds one, or the lazy load succeeds) and has
  loaded the data, a customer with fewer than \<open>MIN_HISTORY_RECORDS\<close> (3) records in the
  loaded data makes \<^verbatim>\<open>predict_next_payment_date\<close> fail with the insufficient-history
  error (\<^verbatim>\<open>ValueError\<close>, "Customer needs at least 3 payment records"); no result is
  returned.
\<close>

theorem insufficient_history:
  assumes "ensure_model eng e = Inr eng1"
    and "load_data e data_path = Inr df"
    and "length (filter (\<lambda>r. customer_id r = cid) (rows df)) < MIN_HISTORY_RECORDS"
  shows "predict_next_payment_date eng e now cid data_path =
     (eng1, Inl (ValueError ''Customer needs at least 3 payment records''))"
proof -
  have "length (filter (\<lambda>r. customer_id r = cid) (rows (calculate_payment_delays df)))
      = length (filter (\<lambda>r. customer_id r = cid) (rows df))"
    by (simp add: count_customer_rows delays_customer_id)
  with assms show ?thesis
    by (simp add: predict_next_payment_date_def predict_loaded_def Let_def)
qed


theorem insufficient_history_witness:
  "ensure_model ex_engine ex_env = Inr ex_loaded
   \<and> load_data ex_env ''history.csv'' = Inr ex_table
   \<and> length (filter (\<lambda>r. customer_id r = ''B'') (rows ex_table)) < MIN_HISTORY_RECORDS
   \<and> predict_next_payment_date ex_engine ex_env (ex_date 2024 3 1) ''B'' ''history.csv'' =
       (ex_loaded, Inl (ValueError ''Customer needs at least 3 payment records''))"
proof -
  have h: "length (filter (\<lambda>r. customer_id r = ''B'') (rows ex_table)) < MIN_HISTORY_RECORDS"
    by (simp add: ex_defs MIN_HISTORY_RECORDS_def)
  from insufficient_history [OF ex_ensure_model ex_load_data h] ex_ensure_model ex_load_data h
  show ?thesis by simp
qed

text \<open>Without a model the call fails as well, with the error of the load.\<close>

lemma insufficient_history_never_returns:
  assumes "load_data e data_path = Inr df"
    and "length (filter (\<lambda>r. customer_id r = cid) (rows df)) < MIN_HISTORY_RECORDS"
  shows "snd (predict_next_payment_date eng e now cid data_path) \<noteq> Inr r"
proof (cases "ensure_model eng e")
  case (Inl err)
  then show ?thesis by (simp add: predict_next_payment_date_def)
next
  case (Inr eng1)
  have "length (filter (\<lambda>r. customer_id r = cid) (rows (calculate_payment_delays df)))
      = length (filter (\<lambda>r. customer_id r = cid) (rows df))"
    by (simp add: count_customer_rows delays_customer_id)
  with assms Inr show ?thesis
    by (simp add: predict_next_payment_date_def predict_loaded_def Let_def)
qed

section \<open>Batch prediction isolates failures\<close>

lemma predict_batch_loop_results:
  assumes "\<And>c. snd (predict_next_payment_date eng' e now c p)
              = snd (predict_next_payment_date eng e now c p)"
  shows "snd (predict_batch_loop eng' e now ids p results) =
     results @ List.map_filter
       (\<lambda>c. case snd (predict_next_payment_date eng e now c p) of
               Inl err \<Rightarrow> None | Inr r \<Rightarrow> Some r) ids"
  using assms
proof (induction ids arbitrary: eng' results)
  case Nil
  then show ?case by (simp add: List.map_filter_simps)
next
  case (Cons c ids)
  obtain eng1 res where step: "predict_next_payment_date eng' e now c p = (eng1, res)"
    by (cases "predict_next_payment_date eng' e now c p")
  have inv: "\<And>c'. snd (predict_next_payment_date eng1 e now c' p)
              = snd (predict_next_payment_date eng e now c' p)"
    using predict_after_predict [of eng' e now c p now _ p] step Cons.prems by simp
  from step Cons.prems [of c] have res: "snd (predict_next_payment_date eng e now c p) = res"
    by simp
  show ?case
    using Cons.IH [OF inv] step res
    by (cases res) (simp_all add: List.map_filter_simps)
qed


text \<open>
  C5. \<^verbatim>\<open>predict_batch\<close> always returns a list: the exception of a customer is caught and
  the customer skipped. The list holds, in the order of the input, exactly the results of
  the customers whose single prediction succeeds, and nothing for the others; it is empty
  when none succeeds.
\<close>

theorem predict_batch_isolates_failures:
  "snd (predict_batch eng e now customer_ids data_path) =
     List.map_filter
       (\<lambda>c. case snd (predict_next_payment_date eng e now c data_path) of
               Inl err \<Rightarrow> None | Inr r \<Rightarrow> Some r) customer_ids"
  using predict_batch_loop_results [of eng e now data_path eng customer_ids "[]"]
  by (simp add: predict_batch_def)

section \<open>The primary path\<close>

text \<open>
  C1. For a customer with at least 3 records whose most recent record has a demand date,
  and an engine that has or loads a model, \<^verbatim>\<open>predict_next_payment_date\<close> returns a
  result whose next demand date is the last demand date moved to the next calendar month
  (December to January of the next year), with the day of the month kept, or the last day
  of that month when the day does not exist there, and whose predicted payment date is
  the next demand date plus the rounded mean of \<open>delay_days\<close> over the customer's records
  (undefined delays are skipped, as pandas does). In particular 2024-01-31 gives
  2024-02-29 and 2023-02-28 gives 2023-03-28.
\<close>

theorem primary_path_prediction:
  assumes model: "ensure_model eng e = Inr eng1"
    and load: "load_data e data_path = Inr df"
    and cdf: "cdf = filter (\<lambda>r. customer_id r = cid) (rows (calculate_payment_delays df))"
    and len: "MIN_HISTORY_RECORDS \<le> length cdf"
    and col: "has_scheduled df"
    and last: "scheduled_date (last cdf) = Some d"
    and valid: "valid_date d"
    and mean: "mean = real_of_int (sum_list (dropna (map delay_days cdf)))
                 / real (length (dropna (map delay_days cdf)))"
  shows "\<exists>r nd. predict_next_payment_date eng e now cid data_path = (eng1, Inr r)
     \<and> last_demand_date r = Some d
     \<and> next_demand_date r = Some nd
     \<and> year nd = (if month d = 12 then year d + 1 else year d)
     \<and> month nd = (if month d = 12 then 1 else month d + 1)
     \<and> day nd = min (day d) (days_in_month (year nd) (month nd))
     \<and> valid_date nd
     \<and> average_delay r = Fl mean
     \<and> predicted_payment_date r = add_days nd (py_round mean)
     \<and> to_ordinal (predicted_payment_date r) = to_ordinal nd + py_round mean
     \<and> next_demand \<lparr>year = 2024, month = 1, day = 31\<rparr>
           = Inr \<lparr>year = 2024, month = 2, day = 29\<rparr>
     \<and> next_demand \<lparr>year = 2023, month = 2, day = 28\<rparr>
           = Inr \<lparr>year = 2023, month = 3, day = 28\<rparr>"
proof -
  from next_demand_valid [OF valid] obtain nd where nd: "next_demand d = Inr nd"
    and ynd: "year nd = (if month d = 12 then year d + 1 else year d)"
    and mnd: "month nd = (if month d = 12 then 1 else month d + 1)"
    and dnd: "day nd = min (day d) (days_in_month (year nd) (month nd))"
    and vnd: "valid_date nd"
    by blast
  from len have ne: "cdf \<noteq> []" and two: "2 \<le> length cdf"
    by (auto simp: MIN_HISTORY_RECORDS_def)
  from engineer_features_Some [of cid "rows (calculate_payment_delays df)" now] two
  obtain fs where fs: "engineer_features (rows (calculate_payment_delays df)) cid now = Some fs"
    by (auto simp: cdf)
  from pd_mean_Fl [OF last_delay_defined [OF col cdf ne last]]
  have m: "pd_mean (map delay_days cdf) = Fl mean" by (simp add: mean)
  note res = predict_loaded_primary [OF load cdf len col last nd fs m, of eng1]
  have ex1: "next_demand \<lparr>year = 2024, month = 1, day = 31\<rparr>
      = Inr \<lparr>year = 2024, month = 2, day = 29\<rparr>"
    by (simp add: next_demand_def Timestamp_def valid_date_def days_in_month_def is_leap_def
        monthrange_def Let_def)
  have ex2: "next_demand \<lparr>year = 2023, month = 2, day = 28\<rparr>
      = Inr \<lparr>year = 2023, month = 3, day = 28\<rparr>"
    by (simp add: next_demand_def Timestamp_def valid_date_def days_in_month_def is_leap_def
        monthrange_def Let_def)
  show ?thesis
    using model res ynd mnd dnd vnd ex1 ex2 to_ordinal_add_days [OF vnd, of "py_round mean"]
    by (simp add: predict_next_payment_date_def)
qed


theorem primary_path_prediction_witness:
  "\<exists>r. predict_next_payment_date ex_engine ex_env (ex_date 2024 3 1) ''A'' ''history.csv''
          = (ex_loaded, Inr r)
     \<and> last_demand_date r = Some (ex_date 2024 1 31)
     \<and> next_demand_date r = Some (ex_date 2024 2 29)
     \<and> average_delay r = Fl 4
     \<and> predicted_payment_date r = ex_date 2024 3 4"
proof -
  have len: "MIN_HISTORY_RECORDS \<le> length ex_history"
    by (simp add: ex_history_def MIN_HISTORY_RECORDS_def)
  have col: "has_scheduled ex_table" by (simp add: ex_table_def)
  have valid: "valid_date (ex_date 2024 1 31)" by (simp add: ex_date_def cal_defs)
  have mean: "(4::real) = real_of_int (sum_list (dropna (map delay_days ex_history)))
                 / real (length (dropna (map delay_days ex_history)))"
    by (simp add: ex_history_def with_delay_def dropna_def List.map_filter_simps)
  from primary_path_prediction [OF ex_ensure_model ex_load_data ex_customer_rows [symmetric]
      len col ex_last_history valid mean, of "ex_date 2024 3 1"]
  obtain r nd where r:
      "predict_next_payment_date ex_engine ex_env (ex_date 2024 3 1) ''A'' ''history.csv''
         = (ex_loaded, Inr r)"
      "last_demand_date r = Some (ex_date 2024 1 31)"
      "next_demand_date r = Some nd"
      "average_delay r = Fl 4"
      "predicted_payment_date r = add_days nd (py_round 4)"
    and nd: "year nd = 2024" "month nd = 2" "day nd = 29"
    by (auto simp: ex_date_def cal_defs)
  from nd have nd_eq: "nd = ex_date 2024 2 29" by (simp add: ex_date_def)
  have "add_days (ex_date 2024 2 29) (py_round 4) = ex_date 2024 3 4"
    by (simp add: py_round_def add_days_def next_day_def ex_date_def days_in_month_def
        is_leap_def eval_nat_numeral)
  with r nd_eq show ?thesis by auto
qed

section \<open>Determinism of the primary path\<close>

text \<open>
  C9. For a customer whose latest record has a demand date, two calls on the same data
  give the same outcome, and so the same predicted payment date, whatever the clock reads
  at either call and whichever models the two engines hold: the clock enters only
  \<open>days_since_last_payment\<close>, which the primary path does not use.
\<close>

theorem primary_path_deterministic:
  assumes "ensure_model eng e = Inr eng1"
    and "ensure_model eng' e = Inr eng1'"
    and load: "load_data e data_path = Inr df"
    and cdf: "cdf = filter (\<lambda>r. customer_id r = cid) (rows (calculate_payment_delays df))"
    and col: "has_scheduled df"
    and last: "scheduled_date (last cdf) = Some d"
  shows "snd (predict_next_payment_date eng e now cid data_path)
       = snd (predict_next_payment_date eng' e now' cid data_path)"
proof -
  have "predict_loaded eng1 e now cid data_path = predict_loaded eng1' e now' cid data_path"
  proof (cases "length cdf < MIN_HISTORY_RECORDS")
    case True
    then show ?thesis
      by (simp add: predict_loaded_def load Let_def cdf [symmetric])
  next
    case False
    then have pos: "cdf \<noteq> []" by (auto simp: MIN_HISTORY_RECORDS_def)
    note unf = predict_loaded_def load sum.case Let_def cdf [symmetric]
      engineer_features_clock [of _ _ now' now]
    show ?thesis
    proof (cases "engineer_features (rows (calculate_payment_delays df)) cid now")
      case None
      with False show ?thesis unfolding unf by simp
    next
      case (Some fs)
      show ?thesis
      proof (cases "next_demand d")
        case (Inl err)
        with Some False pos col last show ?thesis
          unfolding unf by (simp add: delays_has_scheduled)
      next
        case (Inr nd)
        with Some False pos col last show ?thesis
          unfolding unf
          by (simp add: delays_has_scheduled calculate_confidence_clock split: sum.splits)
      qed
    qed
  qed
  with assms(1,2) show ?thesis by (simp add: predict_next_payment_date_def)
qed

theorem primary_path_deterministic_witness:
  "ensure_model ex_engine ex_env = Inr ex_loaded
   \<and> ensure_model ex_other ex_env = Inr ex_other
   \<and> load_data ex_env ''history.csv'' = Inr ex_table
   \<and> has_scheduled ex_table
   \<and> scheduled_date (last (filter (\<lambda>r. customer_id r = ''A'')
         (rows (calculate_payment_delays ex_table)))) = Some (ex_date 2024 1 31)
   \<and> snd (predict_next_payment_date ex_engine ex_env (ex_date 2024 3 1) ''A'' ''history.csv'')
     = snd (predict_next_payment_date ex_other ex_env (ex_date 2025 6 30) ''A'' ''history.csv'')"
proof -
  have col: "has_scheduled ex_table" by (simp add: ex_table_def)
  have last: "scheduled_date (last (filter (\<lambda>r. customer_id r = ''A'')
         (rows (calculate_payment_delays ex_table)))) = Some (ex_date 2024 1 31)"
    by (simp add: ex_customer_rows ex_last_history)
  from primary_path_deterministic [OF ex_ensure_model ex_ensure_other ex_load_data refl col last]
    ex_ensure_model ex_ensure_other ex_load_data col last
  show ?thesis by simp
qed

section \<open>Payment delays\<close>

lemma nth_diff_days:
  assumes "i < length ds"
  shows "diff_days ds ! i =
     (if i = 0 then None else Some (days_between (ds ! i) (ds ! (i - 1))))"
proof (cases i)
  case 0
  with assms show ?thesis by (auto simp: diff_days_def)
next
  case (Suc j)
  with assms have j: "j < length (zip ds (tl ds))" by simp
  from Suc assms have "ds \<noteq> []" by auto
  with Suc j assms show ?thesis
    by (simp add: diff_days_def nth_tl)
qed

lemma nth_fillna:
  "i < length vs \<Longrightarrow> fillna c vs ! i = (case vs ! i of None \<Rightarrow> Some c | Some x \<Rightarrow> Some x)"
  by (simp add: fillna_def)

lemma nth_delays_scheduled:
  assumes "has_scheduled df" and "i < length (rows df)"
  shows "rows (calculate_payment_delays df) ! i =
     with_delay (rows df ! i)
       (case scheduled_date (rows df ! i) of None \<Rightarrow> None
        | Some s \<Rightarrow> Some (days_between (payment_date (rows df ! i)) s))"
  using assms by (simp add: calculate_payment_delays_def)

text \<open>Without the column every delay is the gap to the row before, whoever paid it.\<close>

lemma nth_delays_diff:
  assumes "\<not> has_scheduled df" and "i < length (rows df)"
  shows "rows (calculate_payment_delays df) ! i =
     with_delay (rows df ! i)
       (Some (if i = 0 then 0
              else days_between (payment_date (rows df ! i)) (payment_date (rows df ! (i - 1)))))"
proof -
  let ?ds = "map payment_date (rows df)"
  from assms(2) have i: "i < length ?ds" by simp
  have "rows (calculate_payment_delays df) ! i =
      with_delay (rows df ! i) (fillna 0 (diff_days ?ds) ! i)"
    using assms by (simp add: calculate_payment_delays_def length_fillna length_diff_days)
  also have "fillna 0 (diff_days ?ds) ! i =
      Some (if i = 0 then 0
            else days_between (payment_date (rows df ! i)) (payment_date (rows df ! (i - 1))))"
    using i assms(2) by (simp add: nth_fillna length_diff_days nth_diff_days)
  finally show ?thesis .
qed

text \<open>
  C2 (as amended). \<^verbatim>\<open>calculate_payment_delays\<close> keeps the rows and chooses by the presence
  of the \<^verbatim>\<open>scheduled_date\<close> column, not row by row. With the column, \<open>delay_days\<close> is
  payment date minus scheduled date, in days, for a row that has a scheduled date, and is
  left undefined for a row that has none. Without the column no delay is undefined: the
  first row of the table gets 0, and a row whose preceding row belongs to the same
  customer gets the gap in days to that previous payment.
\<close>

theorem delays_by_column_presence:
  assumes "i < length (rows df)"
  shows "length (rows (calculate_payment_delays df)) = length (rows df)
     \<and> customer_id (rows (calculate_payment_delays df) ! i) = customer_id (rows df ! i)
     \<and> payment_date (rows (calculate_payment_delays df) ! i) = payment_date (rows df ! i)
     \<and> (has_scheduled df \<longrightarrow>
          delay_days (rows (calculate_payment_delays df) ! i) =
            (case scheduled_date (rows df ! i) of None \<Rightarrow> None
             | Some s \<Rightarrow> Some (days_between (payment_date (rows df ! i)) s)))
     \<and> (\<not> has_scheduled df \<longrightarrow>
          delay_days (rows (calculate_payment_delays df) ! i) \<noteq> None
          \<and> (i = 0 \<longrightarrow> delay_days (rows (calculate_payment_delays df) ! i) = Some 0)
          \<and> (0 < i \<and> customer_id (rows df ! (i - 1)) = customer_id (rows df ! i) \<longrightarrow>
               delay_days (rows (calculate_payment_delays df) ! i) =
                 Some (days_between (payment_date (rows df ! i))
                         (payment_date (rows df ! (i - 1))))))"
proof (cases "has_scheduled df")
  case True
  from nth_delays_scheduled [OF True assms] True show ?thesis
    by (simp add: length_delays with_delay_def)
next
  case False
  define r where "r = rows (calculate_payment_delays df) ! i"
  from nth_delays_diff [OF False assms]
  have "customer_id r = customer_id (rows df ! i)"
    and "payment_date r = payment_date (rows df ! i)"
    and "delay_days r = Some (if i = 0 then 0
           else days_between (payment_date (rows df ! i)) (payment_date (rows df ! (i - 1))))"
    by (simp_all add: r_def with_delay_def)
  with False show ?thesis
    unfolding r_def [symmetric] by (auto simp: length_delays)
qed

theorem delays_by_column_presence_witness:
  "(1::nat) < length (rows ex_two) \<and> (2::nat) < length (rows ex_two)
   \<and> \<not> has_scheduled ex_two
   \<and> customer_id (rows ex_two ! 1) = customer_id (rows ex_two ! 2)
   \<and> delay_days (rows (calculate_payment_delays ex_two) ! 2) = Some 31
   \<and> has_scheduled ex_mixed
   \<and> delay_days (rows (calculate_payment_delays ex_mixed) ! 0) = Some 0"
proof -
  have a: "(2::nat) < length (rows ex_two)" and b: "(0::nat) < length (rows ex_mixed)"
    by (simp_all add: ex_two_def ex_mixed_def)
  have c: "\<not> has_scheduled ex_two" "has_scheduled ex_mixed"
    "customer_id (rows ex_two ! 1) = customer_id (rows ex_two ! 2)"
    by (simp_all add: ex_two_def ex_mixed_def ex_payment_def)
  have d: "days_between (payment_date (rows ex_two ! 2)) (payment_date (rows ex_two ! (2 - 1))) = 31"
    "scheduled_date (rows ex_mixed ! 0) = Some (ex_date 2024 1 1)"
    "days_between (payment_date (rows ex_mixed ! 0)) (ex_date 2024 1 1) = 0"
    by (simp_all add: ex_two_def ex_mixed_def ex_payment_def ex_date_def cal_defs)
  from delays_by_column_presence [OF a] delays_by_column_presence [OF b] a c d
  show ?thesis by simp
qed

text \<open>
  The claim as first stated fails twice: a row without a scheduled date in a table that
  has the column keeps an undefined delay, though the customer has an earlier payment;
  and without the column the first record of customer \<open>B\<close> gets the gap to the payment of
  customer \<open>A\<close> before it, not 0.
\<close>

theorem delays_claim_counterexample:
  "map delay_days (rows (calculate_payment_delays ex_mixed)) = [Some 0, None]
   \<and> map customer_id (rows ex_two) = [''A'', ''B'', ''B'']
   \<and> map delay_days (rows (calculate_payment_delays ex_two)) = [Some 0, Some 4, Some 31]"
  by (simp add: calculate_payment_delays_def ex_mixed_def ex_two_def ex_payment_def ex_date_def
      with_delay_def diff_days_def fillna_def cal_defs)

section \<open>The training table\<close>

lemma filter_take_filter:
  "filter P (take i (filter P xs)) = take i (filter P xs)"
proof -
  have "\<forall>x \<in> set (take i (filter P xs)). P x"
  proof
    fix x assume "x \<in> set (take i (filter P xs))"
    then have "x \<in> set (filter P xs)" by (rule in_set_takeD)
    then show "P x" by simp
  qed
  then show ?thesis by (rule filter_True)
qed

lemma engineer_features_total:
  assumes "engineer_features df cid now = Some fs"
  shows "total_payments fs = length (filter (\<lambda>r. customer_id r = cid) df)"
proof (cases "length (filter (\<lambda>r. customer_id r = cid) df) < 2")
  case True
  with assms show ?thesis by (simp add: engineer_features_def)
next
  case False
  with assms have "Some fs = Some (\<lparr>total_payments = length (filter (\<lambda>r. customer_id r = cid) df),
      avg_delay = avg_delay fs, std_delay = std_delay fs, windows = windows fs,
      last_payment_date = last_payment_date fs, last_delay = last_delay fs,
      days_since_last_payment = days_since_last_payment fs\<rparr>)"
    unfolding engineer_features_def Let_def by auto
  then have "fs = \<lparr>total_payments = length (filter (\<lambda>r. customer_id r = cid) df),
      avg_delay = avg_delay fs, std_delay = std_delay fs, windows = windows fs,
      last_payment_date = last_payment_date fs, last_delay = last_delay fs,
      days_since_last_payment = days_since_last_payment fs\<rparr>"
    by (simp only: option.inject)
  then have "total_payments fs = total_payments \<lparr>total_payments = length (filter (\<lambda>r. customer_id r = cid) df),
      avg_delay = avg_delay fs, std_delay = std_delay fs, windows = windows fs,
      last_payment_date = last_payment_date fs, last_delay = last_delay fs,
      days_since_last_payment = days_since_last_payment fs\<rparr>"
    by (rule arg_cong)
  then show ?thesis by simp
qed

lemma engineer_features_prefix:
  assumes "2 \<le> i" and "i \<le> length (filter (\<lambda>r. customer_id r = cid) df)"
  shows "\<exists>fs. engineer_features (take i (filter (\<lambda>r. customer_id r = cid) df)) cid now = Some fs
     \<and> total_payments fs = i"
proof -
  let ?p = "take i (filter (\<lambda>r. customer_id r = cid) df)"
  from assms have len: "length (filter (\<lambda>r. customer_id r = cid) ?p) = i"
    by (simp add: filter_take_filter)
  with assms(1) have "2 \<le> length (filter (\<lambda>r. customer_id r = cid) ?p)" by simp
  from engineer_features_Some [OF this, of now] obtain fs
    where fs: "engineer_features ?p cid now = Some fs" by blast
  from engineer_features_total [OF fs] len have "total_payments fs = i" by simp
  with fs show ?thesis by blast
qed

lemma last_take:
  assumes "0 < i" and "i \<le> length xs"
  shows "last (take i xs) = xs ! (i - 1)"
proof -
  from assms have "take i xs \<noteq> []" by auto
  then have "last (take i xs) = take i xs ! (length (take i xs) - 1)" by (rule last_conv_nth)
  with assms show ?thesis by simp
qed

text \<open>The target paired with the features of the first \<open>i\<close> records of a history.\<close>

definition target_at :: "dpayment list \<Rightarrow> nat \<Rightarrow> int" where
  "target_at cdf i =
     (if i < length cdf - 1
      then days_between (payment_date (cdf ! (i + 1))) (payment_date (cdf ! i))
      else days_between (payment_date (cdf ! i)) (payment_date (cdf ! (i - 1))))"

lemma customer_examples_step:
  assumes "2 \<le> i" and "i \<le> length cdf" and "cdf = filter (\<lambda>r. customer_id r = cid) df"
  shows "(case engineer_features (take i cdf) cid now of None \<Rightarrow> []
         | Some fs \<Rightarrow> [(fs, if i < length cdf - 1
              then days_between (payment_date (cdf ! (i + 1))) (payment_date (cdf ! i))
              else days_between (payment_date (cdf ! i)) (payment_date (last (take i cdf))))])
       = [(the (engineer_features (take i cdf) cid now), target_at cdf i)]"
proof -
  from assms(1) have pos: "0 < i" by simp
  from engineer_features_prefix [OF assms(1), of cid df now] assms(2) obtain fs
    where "engineer_features (take i cdf) cid now = Some fs" by (auto simp: assms(3))
  with last_take [OF pos assms(2)] show ?thesis by (simp add: target_at_def)
qed

lemma concat_map_case_cong:
  assumes "\<And>i. i \<in> set xs \<Longrightarrow> f i = [g i]"
  shows "concat (map f xs) = map g xs"
  using assms by (induction xs) simp_all

lemma customer_examples_eq:
  "customer_examples now df cid =
     (if length (filter (\<lambda>r. customer_id r = cid) df) < 3 then []
      else map (\<lambda>i. (the (engineer_features
                            (take i (filter (\<lambda>r. customer_id r = cid) df)) cid now),
                      target_at (filter (\<lambda>r. customer_id r = cid) df) i))
             [2 ..< length (filter (\<lambda>r. customer_id r = cid) df)])"
proof -
  define cdf where "cdf = filter (\<lambda>r. customer_id r = cid) df"
  show ?thesis
    unfolding customer_examples_def Let_def cdf_def [symmetric]
  proof (cases "length cdf < 3")
    case True
    then show "(if length cdf < 3 then []
        else concat (map (\<lambda>i. case engineer_features (take i cdf) cid now of None \<Rightarrow> []
          | Some fs \<Rightarrow> [(fs, if i < length cdf - 1
              then days_between (payment_date (cdf ! (i + 1))) (payment_date (cdf ! i))
              else days_between (payment_date (cdf ! i)) (payment_date (last (take i cdf))))])
          [2 ..< length cdf]))
      = (if length cdf < 3 then []
         else map (\<lambda>i. (the (engineer_features (take i cdf) cid now), target_at cdf i))
                [2 ..< length cdf])"
      by simp
  next
    case False
    have "concat (map (\<lambda>i. case engineer_features (take i cdf) cid now of None \<Rightarrow> []
          | Some fs \<Rightarrow> [(fs, if i < length cdf - 1
              then days_between (payment_date (cdf ! (i + 1))) (payment_date (cdf ! i))
              else days_between (payment_date (cdf ! i)) (payment_date (last (take i cdf))))])
          [2 ..< length cdf])
       = map (\<lambda>i. (the (engineer_features (take i cdf) cid now), target_at cdf i))
                [2 ..< length cdf]"
    proof (rule concat_map_case_cong)
      fix i assume "i \<in> set [2 ..< length cdf]"
      then have "2 \<le> i" "i \<le> length cdf" by auto
      then show "(case engineer_features (take i cdf) cid now of None \<Rightarrow> []
          | Some fs \<Rightarrow> [(fs, if i < length cdf - 1
              then days_between (payment_date (cdf ! (i + 1))) (payment_date (cdf ! i))
              else days_between (payment_date (cdf ! i)) (payment_date (last (take i cdf))))])
        = [(the (engineer_features (take i cdf) cid now), target_at cdf i)]"
        by (rule customer_examples_step) (rule cdf_def)
    qed
    with False show "(if length cdf < 3 then []
        else concat (map (\<lambda>i. case engineer_features (take i cdf) cid now of None \<Rightarrow> []
          | Some fs \<Rightarrow> [(fs, if i < length cdf - 1
              then days_between (payment_date (cdf ! (i + 1))) (payment_date (cdf ! i))
              else days_between (payment_date (cdf ! i)) (payment_date (last (take i cdf))))])
          [2 ..< length cdf]))
      = (if length cdf < 3 then []
         else map (\<lambda>i. (the (engineer_features (take i cdf) cid now), target_at cdf i))
                [2 ..< length cdf])"
      by (simp only: if_False)
  qed
qed

lemma length_customer_examples:
  "length (customer_examples now df cid) = length (filter (\<lambda>r. customer_id r = cid) df) - 2"
  by (simp add: customer_examples_eq)

lemma customer_examples_empty:
  "customer_examples now df cid = [] \<longleftrightarrow> length (filter (\<lambda>r. customer_id r = cid) df) < 3"
proof -
  have "customer_examples now df cid = [] \<longleftrightarrow> length (customer_examples now df cid) = 0"
    by simp
  also have "\<dots> \<longleftrightarrow> length (filter (\<lambda>r. customer_id r = cid) df) < 3"
    unfolding length_customer_examples by arith
  finally show ?thesis .
qed

lemma nth_customer_examples:
  assumes "k + 2 < length (filter (\<lambda>r. customer_id r = cid) df)"
  shows "customer_examples now df cid ! k =
     (the (engineer_features (take (k + 2) (filter (\<lambda>r. customer_id r = cid) df)) cid now),
      target_at (filter (\<lambda>r. customer_id r = cid) df) (k + 2))"
proof -
  from assms have "k < length [2 ..< length (filter (\<lambda>r. customer_id r = cid) df)]" by simp
  moreover from assms have "[2 ..< length (filter (\<lambda>r. customer_id r = cid) df)] ! k = k + 2"
    by simp
  moreover from assms have "\<not> length (filter (\<lambda>r. customer_id r = cid) df) < 3" by simp
  ultimately show ?thesis
    by (simp only: customer_examples_eq if_False nth_map)
qed

lemma set_unique: "set (unique xs) = set xs"
  by (simp add: unique_def)

lemma training_examples_empty:
  "training_examples now df = [] \<longleftrightarrow> (\<forall>c. length (filter (\<lambda>r. customer_id r = c) df) < 3)"
proof
  assume empty: "training_examples now df = []"
  show "\<forall>c. length (filter (\<lambda>r. customer_id r = c) df) < 3"
  proof
    fix c
    show "length (filter (\<lambda>r. customer_id r = c) df) < 3"
    proof (cases "c \<in> set (map customer_id df)")
      case True
      then have "c \<in> set (unique (map customer_id df))" by (simp add: set_unique)
      with empty have "customer_examples now df c = []"
        by (auto simp: training_examples_def)
      then show ?thesis by (simp only: customer_examples_empty)
    next
      case False
      then have "filter (\<lambda>r. customer_id r = c) df = []"
        by (auto simp: filter_empty_conv)
      then show ?thesis by simp
    qed
  qed
next
  assume "\<forall>c. length (filter (\<lambda>r. customer_id r = c) df) < 3"
  then have "\<forall>c. customer_examples now df c = []"
    by (simp add: customer_examples_empty)
  then show "training_examples now df = []"
    by (simp add: training_examples_def)
qed

text \<open>
  C3 (as amended). \<^verbatim>\<open>prepare_training_data\<close> produces examples only for customers with
  at least 3 records: none for a customer with fewer, and for a customer with \<open>n \<ge> 3\<close>
  records exactly \<open>n - 2\<close> examples, one for each position \<open>i = 2, \<dots>, n - 1\<close> of the
  customer's history (counted from 0), in this order. The FeatureVector of the example for
  position \<open>i\<close> is engineered from the first \<open>i\<close> records, so the prefixes start at 2
  records and end at \<open>n - 1\<close>; its target is the number of days from record \<open>i\<close> (the first
  record after that prefix) to record \<open>i + 1\<close>, except that the last example
  (\<open>i = n - 1\<close>) gets the gap from record \<open>n - 2\<close> to record \<open>n - 1\<close>. The table lists the
  customers in the order of their first appearance, and the result is \<open>None\<close> exactly
  when no customer has 3 records. Below, \<open>k = i - 2\<close> counts the examples of the customer.
\<close>

theorem training_table_examples:
  assumes cdf: "cdf = filter (\<lambda>r. customer_id r = cid) df"
  shows "(length cdf < 3 \<longrightarrow> customer_examples now df cid = [])
     \<and> (3 \<le> length cdf \<longrightarrow> length (customer_examples now df cid) = length cdf - 2)
     \<and> (k + 2 < length cdf \<longrightarrow>
          engineer_features (take (k + 2) cdf) cid now
            = Some (fst (customer_examples now df cid ! k))
          \<and> total_payments (fst (customer_examples now df cid ! k)) = k + 2
          \<and> snd (customer_examples now df cid ! k) =
              (if k + 3 < length cdf
               then days_between (payment_date (cdf ! (k + 3))) (payment_date (cdf ! (k + 2)))
               else days_between (payment_date (cdf ! (k + 2))) (payment_date (cdf ! (k + 1)))))
     \<and> training_examples now df =
          concat (map (customer_examples now df) (unique (map customer_id df)))
     \<and> (prepare_training_data now df = None
          \<longleftrightarrow> (\<forall>c. length (filter (\<lambda>r. customer_id r = c) df) < 3))
     \<and> (prepare_training_data now df = Some (X, y) \<longrightarrow>
          X = map (\<lambda>ex. numeric_columns (fst ex)) (training_examples now df)
          \<and> y = map snd (training_examples now df))"
proof -
  have a: "length cdf < 3 \<longrightarrow> customer_examples now df cid = []"
    unfolding cdf by (simp add: customer_examples_empty)
  have b: "3 \<le> length cdf \<longrightarrow> length (customer_examples now df cid) = length cdf - 2"
    unfolding cdf by (simp add: length_customer_examples)
  have c: "engineer_features (take (k + 2) cdf) cid now
            = Some (fst (customer_examples now df cid ! k))
          \<and> total_payments (fst (customer_examples now df cid ! k)) = k + 2
          \<and> snd (customer_examples now df cid ! k) =
              (if k + 3 < length cdf
               then days_between (payment_date (cdf ! (k + 3))) (payment_date (cdf ! (k + 2)))
               else days_between (payment_date (cdf ! (k + 2))) (payment_date (cdf ! (k + 1))))"
    if k: "k + 2 < length cdf"
  proof -
    from k have k': "k + 2 < length (filter (\<lambda>r. customer_id r = cid) df)" by (simp add: cdf)
    from k have le: "k + 2 \<le> length (filter (\<lambda>r. customer_id r = cid) df)" by (simp add: cdf)
    have two: "2 \<le> k + 2" by simp
    from engineer_features_prefix [OF two le, of now] obtain fs
      where fs: "engineer_features (take (k + 2) cdf) cid now = Some fs"
        "total_payments fs = k + 2"
      unfolding cdf by blast
    have nth: "customer_examples now df cid ! k = (fs, target_at cdf (k + 2))"
      using nth_customer_examples [OF k', of now] fs(1) unfolding cdf by simp
    have t: "target_at cdf (k + 2) =
        (if k + 3 < length cdf
         then days_between (payment_date (cdf ! (k + 3))) (payment_date (cdf ! (k + 2)))
         else days_between (payment_date (cdf ! (k + 2))) (payment_date (cdf ! (k + 1))))"
    proof -
      have "(k + 2 < length cdf - 1) = (k + 3 < length cdf)" by arith
      moreover have "k + 2 + 1 = k + 3" "k + 2 - 1 = k + 1" by simp_all
      ultimately show ?thesis by (simp only: target_at_def)
    qed
    from nth fs t show ?thesis by simp
  qed
  have d: "training_examples now df =
          concat (map (customer_examples now df) (unique (map customer_id df)))"
    by (simp only: training_examples_def)
  have e: "prepare_training_data now df = None
          \<longleftrightarrow> (\<forall>c. length (filter (\<lambda>r. customer_id r = c) df) < 3)"
    using training_examples_empty [of now df]
    by (simp add: prepare_training_data_def Let_def)
  have f: "prepare_training_data now df = Some (X, y) \<longrightarrow>
          X = map (\<lambda>ex. numeric_columns (fst ex)) (training_examples now df)
          \<and> y = map snd (training_examples now df)"
    by (auto simp: prepare_training_data_def Let_def split: if_splits)
  from a b c d e f show ?thesis by blast
qed

theorem training_table_examples_witness:
  "3 \<le> length ex_history
   \<and> (0::nat) + 2 < length ex_history
   \<and> length (customer_examples (ex_date 2024 3 1) ex_history ''A'') = 1
   \<and> total_payments (fst (customer_examples (ex_date 2024 3 1) ex_history ''A'' ! 0)) = 2
   \<and> snd (customer_examples (ex_date 2024 3 1) ex_history ''A'' ! 0) = 32"
proof -
  have cdf: "ex_history = filter (\<lambda>r. customer_id r = ''A'') ex_history"
    by (simp add: ex_history_def with_delay_def ex_payment_def)
  have len: "length ex_history = 3" by (simp add: ex_history_def)
  have gap: "days_between (payment_date (ex_history ! Suc (Suc 0)))
      (payment_date (ex_history ! Suc 0)) = 32"
    by (simp add: ex_history_def with_delay_def ex_payment_def ex_date_def cal_defs)
  from training_table_examples [OF cdf, of "ex_date 2024 3 1" 0] len gap
  show ?thesis by simp
qed

text \<open>
  The claim as first stated fails for a customer with exactly 3 records: the only example
  has a FeatureVector engineered from 2 records, not 3.
\<close>

theorem training_prefix_counterexample:
  "length ex_history = 3
   \<and> map (\<lambda>ex. total_payments (fst ex)) (training_examples (ex_date 2024 3 1) ex_history) = [2]
   \<and> map snd (training_examples (ex_date 2024 3 1) ex_history) = [32]"
proof -
  have cdf: "filter (\<lambda>r. customer_id r = ''A'') ex_history = ex_history"
    by (simp add: ex_history_def with_delay_def ex_payment_def)
  have ids: "unique (map customer_id ex_history) = [''A'']"
    by (simp add: unique_def ex_history_def with_delay_def ex_payment_def)
  have len: "length ex_history = 3" by (simp add: ex_history_def)
  have up: "[2 ..< 3] = [2::nat]" by (simp add: upt_rec)
  from engineer_features_prefix [of 2 "''A''" ex_history "ex_date 2024 3 1"] cdf len
  obtain fs where fs: "engineer_features (take 2 ex_history) ''A'' (ex_date 2024 3 1) = Some fs"
    "total_payments fs = 2" by auto
  have gap: "target_at ex_history 2 = 32"
    by (simp add: target_at_def ex_history_def with_delay_def ex_payment_def ex_date_def cal_defs)
  have "customer_examples (ex_date 2024 3 1) ex_history ''A'' = [(fs, 32)]"
    using len up fs gap by (simp add: customer_examples_eq cdf)
  with ids len fs show ?thesis by (simp add: training_examples_def)
qed

end
